theory Spec2Isabelle
  imports Main "HOL-Library.Word"
begin

section \<open>The streaming job: spark-apps/spark\_streaming.py\<close>

subsection \<open>Values\<close>

text \<open>
  The job never computes with the two DoubleType columns (price, amount): it only moves
  them from the payload to the table. A double is therefore kept as its 64 bits.
\<close>

datatype double = Bits "64 word"

text \<open>
  A decoded JSON document. \<open>JInt\<close> and \<open>JFloat\<close> are the two number tokens of the
  JSON reader; an object keeps its members in the order of the text.
\<close>

datatype json =
    JNull
  | JBool bool
  | JInt int
  | JFloat double
  | JString string
  | JArray "json list"
  | JObject "(string \<times> json) list"

text \<open>
  The \<open>value\<close> column of a Kafka record, cast to string: either the text of a JSON
  document or some other text.
\<close>

datatype kafka_value = Json json | NotJson string

text \<open>The column types used by \<open>ecommerce_base_schema\<close>.\<close>

datatype data_type = StringType | IntegerType | DoubleType

text \<open>
  A cell of a row. \<open>TimestampV\<close> holds microseconds since the epoch, as TimestampType does.
\<close>

datatype cell = Null | StringV string | IntV int | DoubleV double | TimestampV int

text \<open>A row is the list of its columns, in order, each with its name.\<close>

type_synonym row = "(string \<times> cell) list"

text \<open>
  What the job takes from its Spark session and does not fix itself:
  \<^item> \<open>field_match key name\<close>: whether a member \<open>key\<close> of the payload fills the schema field
    \<open>name\<close> (exact or case-insensitive comparison);
  \<^item> \<open>lenient_string\<close>, \<open>lenient_int\<close>, \<open>lenient_double\<close>: what the permissive JSON reader
    puts into a field whose token is not of the field's declared type (\<open>None\<close>: null);
  \<^item> \<open>parse_timestamp\<close>: the cast of a string to a timestamp (\<open>None\<close>: the string is not
    a timestamp);
  \<^item> \<open>zone_offset t\<close>: the offset from UTC, in microseconds, of the session time zone
    at the instant \<open>t\<close> (the job sets no \<open>spark.sql.session.timeZone\<close>);
  \<^item> \<open>format_day d\<close>: the text \<open>yyyy-MM-dd\<close> of the calendar day \<open>d\<close>, counted in days
    from 1970-01-01.
\<close>

record spark_env =
  field_match :: "string \<Rightarrow> string \<Rightarrow> bool"
  lenient_string :: "json \<Rightarrow> string option"
  lenient_int :: "json \<Rightarrow> int option"
  lenient_double :: "json \<Rightarrow> double option"
  parse_timestamp :: "string \<Rightarrow> int option"
  zone_offset :: "int \<Rightarrow> int"
  format_day :: "int \<Rightarrow> string"

subsection \<open>The base schema and \<open>from_json\<close>\<close>

definition ecommerce_base_schema :: "(string \<times> data_type) list" where
  "ecommerce_base_schema =
     [(''event_id'', StringType),
      (''event_type'', StringType),
      (''user_id'', IntegerType),
      (''product_id'', StringType),
      (''session_id'', StringType),
      (''location'', StringType),
      (''device'', StringType),
      (''timestamp'', StringType),
      (''ip_address'', StringType),
      (''category'', StringType),
      (''quantity'', IntegerType),
      (''price'', DoubleType),
      (''order_id'', StringType),
      (''amount'', DoubleType)]"

text \<open>
  The member of a JSON object that fills a schema field: the last one whose key matches
  (the reader walks the members in order and each match overwrites the field).
\<close>

definition member :: "spark_env \<Rightarrow> (string \<times> json) list \<Rightarrow> string \<Rightarrow> json option" where
  "member env kvs name =
     map_option snd (find (\<lambda>kv. field_match env (fst kv) name) (rev kvs))"

definition opt_cell :: "('a \<Rightarrow> cell) \<Rightarrow> 'a option \<Rightarrow> cell" where
  "opt_cell f x = (case x of None \<Rightarrow> Null | Some y \<Rightarrow> f y)"

text \<open>
  The conversion of one token to a field of the given type. A JSON null gives null; a token
  of the declared type gives its value (an IntegerType field holds 32 bits); every other
  token is the session's business.
\<close>

fun convert_field :: "spark_env \<Rightarrow> data_type \<Rightarrow> json \<Rightarrow> cell" where
  "convert_field env t JNull = Null"
| "convert_field env StringType (JString s) = StringV s"
| "convert_field env StringType j = opt_cell StringV (lenient_string env j)"
| "convert_field env IntegerType (JInt i) =
     (if - 2147483648 \<le> i \<and> i \<le> 2147483647 then IntV i
      else opt_cell IntV (lenient_int env (JInt i)))"
| "convert_field env IntegerType j = opt_cell IntV (lenient_int env j)"
| "convert_field env DoubleType (JFloat d) = DoubleV d"
| "convert_field env DoubleType j = opt_cell DoubleV (lenient_double env j)"

text \<open>
  One field of \<open>from_json(value, schema, {"mode": "PERMISSIVE"})\<close>: a field with no member
  in the payload is null, and so is every field of a value that is not a JSON object.
\<close>

definition field_value :: "spark_env \<Rightarrow> kafka_value \<Rightarrow> string \<Rightarrow> data_type \<Rightarrow> cell" where
  "field_value env v name t =
     (case v of
        Json (JObject kvs) \<Rightarrow>
          (case member env kvs name of
             None \<Rightarrow> Null
           | Some j \<Rightarrow> convert_field env t j)
      | _ \<Rightarrow> Null)"

text \<open>
  \<open>from_json(...).alias("data")\<close> followed by \<open>select("data.*")\<close>: one column per schema
  field, in the schema's order.
\<close>

definition from_json :: "spark_env \<Rightarrow> (string \<times> data_type) list \<Rightarrow> kafka_value \<Rightarrow> row" where
  "from_json env schema v = map (\<lambda>(name, t). (name, field_value env v name t)) schema"

subsection \<open>Column expressions and DataFrame operations\<close>

text \<open>
  A column expression, evaluated on a row. \<open>None\<close>: the expression names a column that the
  row does not have (Spark refuses such a plan with an AnalysisException).
\<close>

type_synonym expr = "row \<Rightarrow> cell option"

definition col :: "string \<Rightarrow> expr" where
  "col c r = map_of r c"

text \<open>
  \<open>to_timestamp(e)\<close> without a format is the cast to timestamp. The job applies it to a
  StringType column; a cell of another type is left as null here.
\<close>

fun cast_timestamp :: "spark_env \<Rightarrow> cell \<Rightarrow> cell" where
  "cast_timestamp env (StringV s) = opt_cell TimestampV (parse_timestamp env s)"
| "cast_timestamp env (TimestampV t) = TimestampV t"
| "cast_timestamp env c = Null"

definition to_timestamp :: "spark_env \<Rightarrow> expr \<Rightarrow> expr" where
  "to_timestamp env e r = map_option (cast_timestamp env) (e r)"

text \<open>
  The calendar day of an instant in the session time zone, counted in days from
  1970-01-01.
\<close>

definition local_day :: "spark_env \<Rightarrow> int \<Rightarrow> int" where
  "local_day env t = (t + zone_offset env t) div 86400000000"

fun format_date :: "spark_env \<Rightarrow> cell \<Rightarrow> cell" where
  "format_date env (TimestampV t) = StringV (format_day env (local_day env t))"
| "format_date env c = Null"

text \<open>
  \<open>date_format(e, "yyyy-MM-dd")\<close>. The job applies it to a TimestampType column (see
  \<open>format_date\<close>); a cell of another type is left as null here.
\<close>

definition date_format_ymd :: "spark_env \<Rightarrow> expr \<Rightarrow> expr" where
  "date_format_ymd env e r = map_option (format_date env) (e r)"

text \<open>
  \<open>withColumn(name, e)\<close>: a column of that name is replaced where it stands, a new one
  is added at the end.
\<close>

definition withColumn :: "string \<Rightarrow> expr \<Rightarrow> row \<Rightarrow> row option" where
  "withColumn name e r =
     (case e r of
        None \<Rightarrow> None
      | Some v \<Rightarrow>
          Some (if name \<in> set (map fst r)
                then map (\<lambda>(k, x). if k = name then (k, v) else (k, x)) r
                else r @ [(name, v)]))"

text \<open>A DataFrame operation applied to every row; it fails when it fails on a row.\<close>

fun each :: "('a \<Rightarrow> 'b option) \<Rightarrow> 'a list \<Rightarrow> 'b list option" where
  "each f [] = Some []"
| "each f (x # xs) =
     (case f x of
        None \<Rightarrow> None
      | Some y \<Rightarrow> map_option ((#) y) (each f xs))"

fun filter_rows :: "(row \<Rightarrow> bool option) \<Rightarrow> row list \<Rightarrow> row list option" where
  "filter_rows p [] = Some []"
| "filter_rows p (r # rs) =
     (case p r of
        None \<Rightarrow> None
      | Some b \<Rightarrow> map_option (\<lambda>rs'. if b then r # rs' else rs') (filter_rows p rs))"

text \<open>Whether one of the named columns is null in the row.\<close>

fun any_null :: "string list \<Rightarrow> row \<Rightarrow> bool option" where
  "any_null [] r = Some False"
| "any_null (c # cs) r =
     (case map_of r c of
        None \<Rightarrow> None
      | Some v \<Rightarrow> map_option (\<lambda>b. v = Null \<or> b) (any_null cs r))"

text \<open>\<open>dropna(subset=cs)\<close>, with the default \<open>how='any'\<close>.\<close>

definition dropna :: "string list \<Rightarrow> row list \<Rightarrow> row list option" where
  "dropna cs = filter_rows (\<lambda>r. map_option Not (any_null cs r))"

fun select_row :: "string list \<Rightarrow> row \<Rightarrow> row option" where
  "select_row [] r = Some []"
| "select_row (c # cs) r =
     (case map_of r c of
        None \<Rightarrow> None
      | Some v \<Rightarrow> map_option ((#) (c, v)) (select_row cs r))"

definition select :: "string list \<Rightarrow> row list \<Rightarrow> row list option" where
  "select cs = each (select_row cs)"

subsection \<open>The job's DataFrames\<close>

text \<open>
  \<open>parsed_df\<close>, for the values of the Kafka records read: the parsed payload, with
  \<open>timestamp\<close> cast and \<open>event_date\<close> added.
\<close>

definition parse_value :: "spark_env \<Rightarrow> kafka_value \<Rightarrow> row option" where
  "parse_value env v =
     Option.bind
       (withColumn ''timestamp'' (to_timestamp env (col ''timestamp''))
          (from_json env ecommerce_base_schema v))
       (withColumn ''event_date'' (date_format_ymd env (col ''timestamp'')))"

definition parsed_df :: "spark_env \<Rightarrow> kafka_value list \<Rightarrow> row list option" where
  "parsed_df env vs = each (parse_value env) vs"

definition required_fields :: "string list" where
  "required_fields = [''event_id'', ''event_type'', ''user_id'', ''timestamp'']"

text \<open>\<open>cleaned_df = parsed_df.dropna(subset=required_fields)\<close>\<close>

definition cleaned_df :: "spark_env \<Rightarrow> kafka_value list \<Rightarrow> row list option" where
  "cleaned_df env vs = Option.bind (parsed_df env vs) (dropna required_fields)"

text \<open>
  \<open>invalid_df = parsed_df.filter(col("event_id").isNull() | col("event_type").isNull())\<close>,
  the rows that the query \<open>invalid_records_console\<close> prints.
\<close>

definition is_invalid :: "row \<Rightarrow> bool option" where
  "is_invalid r =
     (case col ''event_id'' r of
        None \<Rightarrow> None
      | Some a \<Rightarrow>
          (case col ''event_type'' r of
             None \<Rightarrow> None
           | Some b \<Rightarrow> Some (a = Null \<or> b = Null)))"

definition invalid_df :: "spark_env \<Rightarrow> kafka_value list \<Rightarrow> row list option" where
  "invalid_df env vs = Option.bind (parsed_df env vs) (filter_rows is_invalid)"

text \<open>The columns of \<open>CREATE TABLE local.db.ecommerce_events\<close> and its partitioning.\<close>

definition table_columns :: "string list" where
  "table_columns =
     [''event_id'', ''event_type'', ''user_id'', ''product_id'', ''session_id'',
      ''location'', ''device'', ''timestamp'', ''event_date'', ''ip_address'',
      ''category'', ''quantity'', ''price'', ''order_id'', ''amount'']"

definition partitioned_by :: "string list" where
  "partitioned_by = [''event_type'', ''event_date'']"

text \<open>
  The second \<open>cleaned_df\<close>, the one the stream writes to the table:
  \<open>cleaned_df.select("event_id", ..., "amount")\<close>.
\<close>

definition written_df :: "spark_env \<Rightarrow> kafka_value list \<Rightarrow> row list option" where
  "written_df env vs =
     Option.bind (cleaned_df env vs)
       (select
          [''event_id'', ''event_type'', ''user_id'', ''product_id'', ''session_id'',
           ''location'', ''device'', ''timestamp'', ''event_date'', ''ip_address'',
           ''category'', ''quantity'', ''price'', ''order_id'', ''amount''])"

text \<open>
  The partition of a row: the values of the columns named by \<open>PARTITIONED BY\<close>.
\<close>

definition partitionKey :: "row \<Rightarrow> cell list option" where
  "partitionKey r = map_option (map snd) (select_row partitioned_by r)"

subsection \<open>The rows written out, field by field\<close>

text \<open>The row of \<open>parsed_df\<close> for one Kafka value.\<close>

definition parsed_row :: "spark_env \<Rightarrow> kafka_value \<Rightarrow> row" where
  "parsed_row env v =
     [(''event_id'', field_value env v ''event_id'' StringType),
      (''event_type'', field_value env v ''event_type'' StringType),
      (''user_id'', field_value env v ''user_id'' IntegerType),
      (''product_id'', field_value env v ''product_id'' StringType),
      (''session_id'', field_value env v ''session_id'' StringType),
      (''location'', field_value env v ''location'' StringType),
      (''device'', field_value env v ''device'' StringType),
      (''timestamp'', cast_timestamp env (field_value env v ''timestamp'' StringType)),
      (''ip_address'', field_value env v ''ip_address'' StringType),
      (''category'', field_value env v ''category'' StringType),
      (''quantity'', field_value env v ''quantity'' IntegerType),
      (''price'', field_value env v ''price'' DoubleType),
      (''order_id'', field_value env v ''order_id'' StringType),
      (''amount'', field_value env v ''amount'' DoubleType),
      (''event_date'',
         format_date env (cast_timestamp env (field_value env v ''timestamp'' StringType)))]"

text \<open>The same cells in the order of the table.\<close>

definition table_row :: "spark_env \<Rightarrow> kafka_value \<Rightarrow> row" where
  "table_row env v =
     [(''event_id'', field_value env v ''event_id'' StringType),
      (''event_type'', field_value env v ''event_type'' StringType),
      (''user_id'', field_value env v ''user_id'' IntegerType),
      (''product_id'', field_value env v ''product_id'' StringType),
      (''session_id'', field_value env v ''session_id'' StringType),
      (''location'', field_value env v ''location'' StringType),
      (''device'', field_value env v ''device'' StringType),
      (''timestamp'', cast_timestamp env (field_value env v ''timestamp'' StringType)),
      (''event_date'',
         format_date env (cast_timestamp env (field_value env v ''timestamp'' StringType))),
      (''ip_address'', field_value env v ''ip_address'' StringType),
      (''category'', field_value env v ''category'' StringType),
      (''quantity'', field_value env v ''quantity'' IntegerType),
      (''price'', field_value env v ''price'' DoubleType),
      (''order_id'', field_value env v ''order_id'' StringType),
      (''amount'', field_value env v ''amount'' DoubleType)]"

text \<open>The value passes \<open>dropna\<close>: none of the four required columns is null.\<close>

definition has_required :: "spark_env \<Rightarrow> kafka_value \<Rightarrow> bool" where
  "has_required env v \<longleftrightarrow>
     field_value env v ''event_id'' StringType \<noteq> Null \<and>
     field_value env v ''event_type'' StringType \<noteq> Null \<and>
     field_value env v ''user_id'' IntegerType \<noteq> Null \<and>
     cast_timestamp env (field_value env v ''timestamp'' StringType) \<noteq> Null"

text \<open>The value passes the filter of \<open>invalid_df\<close>.\<close>

definition lacks_id_or_type :: "spark_env \<Rightarrow> kafka_value \<Rightarrow> bool" where
  "lacks_id_or_type env v \<longleftrightarrow>
     field_value env v ''event_id'' StringType = Null \<or>
     field_value env v ''event_type'' StringType = Null"

subsection \<open>Sample sessions and payloads\<close>

text \<open>
  A session in UTC that compares names exactly and gives null for a token of the wrong
  type. Its two library functions are tabulated on the arguments the samples use:
  1704151800000000 microseconds is 2024-01-01T23:30:00Z, and the days 19723 and 19724
  after 1970-01-01 are 2024-01-01 and 2024-01-02.
\<close>

definition utc_session :: spark_env where
  "utc_session =
     \<lparr>field_match = (=),
      lenient_string = (\<lambda>j. None),
      lenient_int = (\<lambda>j. None),
      lenient_double = (\<lambda>j. None),
      parse_timestamp =
        (\<lambda>s. if s = ''2024-01-01T23:30:00Z'' then Some 1704151800000000 else None),
      zone_offset = (\<lambda>t. 0),
      format_day =
        (\<lambda>d. if d = 19723 then ''2024-01-01''
             else if d = 19724 then ''2024-01-02'' else [])\<rparr>"

text \<open>The same session one hour east of UTC.\<close>

definition plus1_session :: spark_env where
  "plus1_session = utc_session\<lparr>zone_offset := (\<lambda>t. 3600000000)\<rparr>"

definition login_e1 :: kafka_value where
  "login_e1 =
     Json (JObject
       [(''event_id'', JString ''e1''),
        (''event_type'', JString ''login''),
        (''user_id'', JInt 1),
        (''session_id'', JString ''s1''),
        (''location'', JString ''Lagos''),
        (''device'', JString ''mobile''),
        (''timestamp'', JString ''2024-01-01T23:30:00Z'')])"

text \<open>\<open>login_e1\<close> with a member that the base schema does not name.\<close>

definition login_e1_with_cart :: kafka_value where
  "login_e1_with_cart =
     Json (JObject
       [(''event_id'', JString ''e1''),
        (''event_type'', JString ''login''),
        (''user_id'', JInt 1),
        (''session_id'', JString ''s1''),
        (''location'', JString ''Lagos''),
        (''device'', JString ''mobile''),
        (''timestamp'', JString ''2024-01-01T23:30:00Z''),
        (''cart_id'', JString ''c9'')])"

text \<open>\<open>login_e1\<close> without its \<open>user_id\<close>.\<close>

definition login_e1_no_user :: kafka_value where
  "login_e1_no_user =
     Json (JObject
       [(''event_id'', JString ''e1''),
        (''event_type'', JString ''login''),
        (''session_id'', JString ''s1''),
        (''location'', JString ''Lagos''),
        (''device'', JString ''mobile''),
        (''timestamp'', JString ''2024-01-01T23:30:00Z'')])"

text \<open>\<open>login_e1\<close> without its \<open>event_id\<close>.\<close>

definition login_no_id :: kafka_value where
  "login_no_id =
     Json (JObject
       [(''event_type'', JString ''login''),
        (''user_id'', JInt 1),
        (''session_id'', JString ''s1''),
        (''location'', JString ''Lagos''),
        (''device'', JString ''mobile''),
        (''timestamp'', JString ''2024-01-01T23:30:00Z'')])"

text \<open>\<open>login_e1\<close> with a timestamp that is present and is no date.\<close>

definition login_e1_bad_time :: kafka_value where
  "login_e1_bad_time =
     Json (JObject
       [(''event_id'', JString ''e1''),
        (''event_type'', JString ''login''),
        (''user_id'', JInt 1),
        (''session_id'', JString ''s1''),
        (''location'', JString ''Lagos''),
        (''device'', JString ''mobile''),
        (''timestamp'', JString ''yesterday'')])"

text \<open>The table row of \<open>login_e1\<close> in a session whose day of that instant is 2024-01-01.\<close>

definition login_e1_row :: row where
  "login_e1_row =
     [(''event_id'', StringV ''e1''),
      (''event_type'', StringV ''login''),
      (''user_id'', IntV 1),
      (''product_id'', Null),
      (''session_id'', StringV ''s1''),
      (''location'', StringV ''Lagos''),
      (''device'', StringV ''mobile''),
      (''timestamp'', TimestampV 1704151800000000),
      (''event_date'', StringV ''2024-01-01''),
      (''ip_address'', Null),
      (''category'', Null),
      (''quantity'', Null),
      (''price'', Null),
      (''order_id'', Null),
      (''amount'', Null)]"

section \<open>The end of the job: the write and its failure\<close>

text \<open>
  A Python exception, as far as \<open>except Exception\<close> tells exceptions apart: an instance of
  \<open>Exception\<close>, or one that is only a \<open>BaseException\<close> (KeyboardInterrupt, SystemExit).
  The string is what \<open>str(e)\<close> gives.
\<close>

datatype exn = Exception string | BaseException string

fun exn_str :: "exn \<Rightarrow> string" where
  "exn_str (Exception m) = m"
| "exn_str (BaseException m) = m"

text \<open>
  What \<open>spark.streams.awaitAnyTermination()\<close> does once the write has been started: it
  raises, it returns, or it never returns.
\<close>

datatype await = Await_raises exn | Await_returns | Await_blocks

text \<open>
  How one run of the streaming write goes, as the job sees it: \<open>toTable\<close> raises, or the
  query starts and the wait for termination goes as said.
\<close>

datatype run = Start_raises exn | Started await

text \<open>How a statement ends: it returns a value, it raises, or it never returns.\<close>

datatype 'a outcome = Returns 'a | Raises exn | Blocks

text \<open>
  What the last block of the script changes: the log, whether \<open>spark.stop()\<close> has been
  called, and how many times the write has been started.
\<close>

record job_state =
  log :: "string list"
  spark_stopped :: bool
  started :: nat

type_synonym 'a stmt = "job_state \<Rightarrow> 'a outcome \<times> job_state"

text \<open>One statement after another: the second runs only when the first returns.\<close>

definition and_then :: "'a stmt \<Rightarrow> ('a \<Rightarrow> 'b stmt) \<Rightarrow> 'b stmt" where
  "and_then m f s =
     (case m s of
        (Returns x, s') \<Rightarrow> f x s'
      | (Raises e, s') \<Rightarrow> (Raises e, s')
      | (Blocks, s') \<Rightarrow> (Blocks, s'))"

text \<open>
  The \<open>finally\<close> clause, run when the statement before it has ended with \<open>out\<close>: that
  ending stands unless the clause itself raises or never returns.
\<close>

definition run_finally :: "unit stmt \<Rightarrow> unit outcome \<Rightarrow> unit stmt" where
  "run_finally final out s =
     (case final s of
        (Returns x, s') \<Rightarrow> (out, s')
      | (Raises e, s') \<Rightarrow> (Raises e, s')
      | (Blocks, s') \<Rightarrow> (Blocks, s'))"

text \<open>
  \<open>try: body except Exception as e: handler finally: final\<close>. The handler runs for an
  instance of \<open>Exception\<close> only; any other exception goes to \<open>finally\<close> and on. A body
  or a handler that never returns never reaches \<open>finally\<close>.
\<close>

definition try_except_Exception_finally ::
  "unit stmt \<Rightarrow> (exn \<Rightarrow> unit stmt) \<Rightarrow> unit stmt \<Rightarrow> unit stmt" where
  "try_except_Exception_finally body handler final s =
     (case body s of
        (Returns x, s1) \<Rightarrow> run_finally final (Returns x) s1
      | (Blocks, s1) \<Rightarrow> (Blocks, s1)
      | (Raises (BaseException m), s1) \<Rightarrow> run_finally final (Raises (BaseException m)) s1
      | (Raises (Exception m), s1) \<Rightarrow>
          (case handler (Exception m) s1 of
             (Blocks, s2) \<Rightarrow> (Blocks, s2)
           | (Returns x, s2) \<Rightarrow> run_finally final (Returns x) s2
           | (Raises e, s2) \<Rightarrow> run_finally final (Raises e) s2))"

definition logger_info :: "string \<Rightarrow> unit stmt" where
  "logger_info msg s = (Returns (), s\<lparr>log := log s @ [''INFO '' @ msg]\<rparr>)"

definition logger_error :: "string \<Rightarrow> unit stmt" where
  "logger_error msg s = (Returns (), s\<lparr>log := log s @ [''ERROR '' @ msg]\<rparr>)"

definition spark_stop :: "unit stmt" where
  "spark_stop s = (Returns (), s\<lparr>spark_stopped := True\<rparr>)"

text \<open>The bare \<open>raise\<close> of the handler: the exception being handled is raised again.\<close>

definition reraise :: "exn \<Rightarrow> unit stmt" where
  "reraise e s = (Raises e, s)"

text \<open>
  \<open>cleaned_df.writeStream ... .toTable("local.db.ecommerce_events")\<close>: one more start of
  the write. \<open>runs n\<close> says how the \<open>n\<close>-th start goes; a query that starts is handed
  back as what waiting for it will do.
\<close>

definition toTable :: "(nat \<Rightarrow> run) \<Rightarrow> await stmt" where
  "toTable runs s =
     (case runs (started s) of
        Start_raises e \<Rightarrow> (Raises e, s\<lparr>started := Suc (started s)\<rparr>)
      | Started query \<Rightarrow> (Returns query, s\<lparr>started := Suc (started s)\<rparr>))"

definition awaitAnyTermination :: "await \<Rightarrow> unit stmt" where
  "awaitAnyTermination query s =
     (case query of
        Await_raises e \<Rightarrow> (Raises e, s)
      | Await_returns \<Rightarrow> (Returns (), s)
      | Await_blocks \<Rightarrow> (Blocks, s))"

text \<open>
  The last block of the script, statement by statement. The two messages logged at level
  INFO are shortened.
  \<^verbatim>\<open>
  try:
      query = cleaned_df.writeStream ... .toTable("local.db.ecommerce_events")
      logger.info(...); logger.info(...)
      spark.streams.awaitAnyTermination()
  except Exception as e:
      logger.error(f"Streaming query failed: {e}")
      raise
  finally:
      spark.stop()
  \<close>
\<close>

definition write_stream :: "(nat \<Rightarrow> run) \<Rightarrow> unit stmt" where
  "write_stream runs =
     try_except_Exception_finally
       (and_then (toTable runs) (\<lambda>query.
        and_then (logger_info ''Streaming query started'') (\<lambda>u.
        and_then (logger_info ''Checkpoint location'') (\<lambda>u.
        awaitAnyTermination query))))
       (\<lambda>e. and_then (logger_error (''Streaming query failed: '' @ exn_str e)) (\<lambda>u.
             reraise e))
       spark_stop"

text \<open>The state in which the block starts.\<close>

definition block_start :: job_state where
  "block_start = \<lparr>log = [], spark_stopped = False, started = 0\<rparr>"

text \<open>
  In the words of the specification: a failed commit is retried until the cap of attempts
  is used up, and only then is the failure fatal. \<open>retry_up_to_cap cap runs n\<close> is how the
  pipeline ends when \<open>cap\<close> attempts remain and the next run is the \<open>n\<close>-th.
\<close>

fun retry_up_to_cap :: "nat \<Rightarrow> (nat \<Rightarrow> run) \<Rightarrow> nat \<Rightarrow> unit outcome" where
  "retry_up_to_cap 0 runs n = Raises (Exception ''attempt cap exceeded'')"
| "retry_up_to_cap (Suc cap) runs n =
     (case runs n of
        Start_raises e \<Rightarrow> retry_up_to_cap cap runs (Suc n)
      | Started (Await_raises e) \<Rightarrow> retry_up_to_cap cap runs (Suc n)
      | Started Await_returns \<Rightarrow> Returns ()
      | Started Await_blocks \<Rightarrow> Blocks)"

text \<open>A store that is unavailable for the first run only.\<close>

definition fails_once :: "nat \<Rightarrow> run" where
  "fails_once n =
     (if n = 0 then Started (Await_raises (Exception ''storage unavailable''))
      else Started Await_blocks)"

text \<open>A run that is interrupted from the keyboard while the job waits.\<close>

definition interrupted :: "nat \<Rightarrow> run" where
  "interrupted n = Started (Await_raises (BaseException ''KeyboardInterrupt''))"

section \<open>The ingress: api/main.py\<close>

text \<open>The annotations of \<open>EventModel\<close>.\<close>

datatype annotation = PyStr | PyInt

definition EventModel :: "(string \<times> annotation) list" where
  "EventModel =
     [(''event_id'', PyStr),
      (''event_type'', PyStr),
      (''user_id'', PyInt),
      (''session_id'', PyStr),
      (''location'', PyStr),
      (''device'', PyStr),
      (''timestamp'', PyStr)]"

text \<open>
  What the handler takes from its libraries:
  \<^item> \<open>coerce_str\<close>, \<open>coerce_int\<close>: what pydantic makes of a value that is not of the
    annotated type (\<open>None\<close>: it refuses the value);
  \<^item> \<open>produce_raises queue m\<close>: the exception, if any, that \<open>producer.produce\<close> raises
    for the message \<open>m\<close> when \<open>queue\<close> has been produced before.
\<close>

record message =
  topic :: string
  key :: json
  payload :: kafka_value

record api_env =
  coerce_str :: "json \<Rightarrow> string option"
  coerce_int :: "json \<Rightarrow> int option"
  produce_raises :: "message list \<Rightarrow> message \<Rightarrow> string option"

text \<open>The validation of one field; \<open>None\<close>: the value is refused. Null is never allowed.\<close>

fun validate_field :: "api_env \<Rightarrow> annotation \<Rightarrow> json \<Rightarrow> json option" where
  "validate_field env a JNull = None"
| "validate_field env PyStr (JString s) = Some (JString s)"
| "validate_field env PyStr j = map_option JString (coerce_str env j)"
| "validate_field env PyInt (JInt i) = Some (JInt i)"
| "validate_field env PyInt j = map_option JInt (coerce_int env j)"

datatype field_error = Missing string | Invalid string

text \<open>
  The declared fields of a request body (a dict: its keys are distinct), in the order of
  the class: the errors and the validated values.
\<close>

fun validate_fields ::
  "api_env \<Rightarrow> (string \<times> annotation) list \<Rightarrow> (string \<times> json) list \<Rightarrow>
   field_error list \<times> (string \<times> json) list" where
  "validate_fields env [] body = ([], [])"
| "validate_fields env ((name, a) # rest) body =
     (let (errors, vals) = validate_fields env rest body
      in case map_of body name of
           None \<Rightarrow> (Missing name # errors, vals)
         | Some j \<Rightarrow>
             (case validate_field env a j of
                None \<Rightarrow> (Invalid name # errors, vals)
              | Some x \<Rightarrow> (errors, (name, x) # vals)))"

text \<open>
  \<open>EventModel(**body).dict()\<close> with \<open>extra = 'allow'\<close>: the validated fields, then every
  other member of the body as it is (here in the order of the body); or the validation
  errors.
\<close>

definition event_dict :: "api_env \<Rightarrow> (string \<times> json) list \<Rightarrow> field_error list + (string \<times> json) list" where
  "event_dict env body =
     (case validate_fields env EventModel body of
        ([], vals) \<Rightarrow> Inr (vals @ filter (\<lambda>kv. fst kv \<notin> set (map fst EventModel)) body)
      | (e # errors, vals) \<Rightarrow> Inl (e # errors))"

datatype response =
    Unprocessable "field_error list"
  | Event_sent "(string \<times> json) list"
  | Server_error string

text \<open>
  \<open>POST /events\<close>: the response and the messages produced so far. A body that is not an
  object, or that fails validation, is answered before the handler's body runs. In the
  handler, a missing \<open>session_id\<close> key and an exception of \<open>produce\<close> both become the
  response 500. \<open>producer.poll(0)\<close> only serves delivery callbacks and is left out.
\<close>

definition send_event :: "api_env \<Rightarrow> json \<Rightarrow> message list \<Rightarrow> response \<times> message list" where
  "send_event env body queue =
     (case body of
        JObject kvs \<Rightarrow>
          (case event_dict env kvs of
             Inl errors \<Rightarrow> (Unprocessable errors, queue)
           | Inr d \<Rightarrow>
               (case map_of d ''session_id'' of
                  None \<Rightarrow> (Server_error ''KeyError'', queue)
                | Some k \<Rightarrow>
                    (let m = \<lparr>topic = ''ecommerce_events'', key = k,
                              payload = Json (JObject d)\<rparr>
                     in case produce_raises env queue m of
                          Some e \<Rightarrow> (Server_error (''Failed to send event: '' @ e), queue)
                        | None \<Rightarrow> (Event_sent d, queue @ [m]))))
      | _ \<Rightarrow> (Unprocessable [Invalid ''body''], queue))"

text \<open>Libraries that coerce nothing and a producer that accepts every message.\<close>

definition strict_api :: api_env where
  "strict_api =
     \<lparr>coerce_str = (\<lambda>j. None), coerce_int = (\<lambda>j. None), produce_raises = (\<lambda>q m. None)\<rparr>"

definition login_body :: "(string \<times> json) list" where
  "login_body =
     [(''event_id'', JString ''e1''),
      (''event_type'', JString ''login''),
      (''user_id'', JInt 1),
      (''session_id'', JString ''s1''),
      (''location'', JString ''Lagos''),
      (''device'', JString ''mobile''),
      (''timestamp'', JString ''2024-01-01T23:30:00Z'')]"

section \<open>Properties\<close>

subsection \<open>The DataFrames in closed form\<close>

lemma each_total:
  "(\<And>x. x \<in> set xs \<Longrightarrow> f x = Some (g x)) \<Longrightarrow> each f xs = Some (map g xs)"
  by (induction xs) simp_all

lemma each_map:
  "(\<And>x. x \<in> set xs \<Longrightarrow> f (g x) = Some (h x)) \<Longrightarrow> each f (map g xs) = Some (map h xs)"
  by (induction xs) simp_all

lemma filter_rows_map:
  "(\<And>x. x \<in> set xs \<Longrightarrow> p (f x) = Some (q x)) \<Longrightarrow>
   filter_rows p (map f xs) = Some (map f (filter q xs))"
  by (induction xs) simp_all

lemma parse_value_row: "parse_value env v = Some (parsed_row env v)"
  by (simp add: parse_value_def from_json_def ecommerce_base_schema_def withColumn_def
      to_timestamp_def date_format_ymd_def col_def parsed_row_def)

lemma parsed_df_rows: "parsed_df env vs = Some (map (parsed_row env) vs)"
  unfolding parsed_df_def by (rule each_total) (rule parse_value_row)

lemma any_null_parsed_row:
  "any_null required_fields (parsed_row env v) = Some (\<not> has_required env v)"
  by (simp add: required_fields_def parsed_row_def has_required_def)

lemma cleaned_df_rows:
  "cleaned_df env vs = Some (map (parsed_row env) (filter (has_required env) vs))"
  by (simp add: cleaned_df_def parsed_df_rows dropna_def filter_rows_map any_null_parsed_row)

lemma select_parsed_row:
  "select_row
     [''event_id'', ''event_type'', ''user_id'', ''product_id'', ''session_id'',
      ''location'', ''device'', ''timestamp'', ''event_date'', ''ip_address'',
      ''category'', ''quantity'', ''price'', ''order_id'', ''amount'']
     (parsed_row env v) = Some (table_row env v)"
  by (simp add: parsed_row_def table_row_def)

lemma written_df_rows:
  "written_df env vs = Some (map (table_row env) (filter (has_required env) vs))"
proof -
  have "select
          [''event_id'', ''event_type'', ''user_id'', ''product_id'', ''session_id'',
           ''location'', ''device'', ''timestamp'', ''event_date'', ''ip_address'',
           ''category'', ''quantity'', ''price'', ''order_id'', ''amount'']
          (map (parsed_row env) (filter (has_required env) vs))
        = Some (map (table_row env) (filter (has_required env) vs))"
    unfolding select_def by (rule each_map) (rule select_parsed_row)
  then show ?thesis by (simp add: written_df_def cleaned_df_rows)
qed

lemma is_invalid_parsed_row: "is_invalid (parsed_row env v) = Some (lacks_id_or_type env v)"
  by (simp add: is_invalid_def col_def parsed_row_def lacks_id_or_type_def)

lemma invalid_df_rows:
  "invalid_df env vs = Some (map (parsed_row env) (filter (lacks_id_or_type env) vs))"
  by (simp add: invalid_df_def parsed_df_rows filter_rows_map is_invalid_parsed_row)

lemma map_fst_table_row: "map fst (table_row env v) = table_columns"
  by (simp add: table_row_def table_columns_def)

lemmas sample_defs =
  has_required_def lacks_id_or_type_def table_row_def parsed_row_def field_value_def
  member_def opt_cell_def local_day_def utc_session_def plus1_session_def

subsection \<open>The columns of the table rows\<close>

text \<open>
  C10. The stream always has rows to write (no column of the plan is unresolved), and
  every row it writes has the fifteen columns of the table, by name and in the table's
  order: event\_id, event\_type, user\_id, product\_id, session\_id, location, device,
  timestamp, event\_date, ip\_address, category, quantity, price, order\_id, amount.
  A name outside these is not a column of any written row.
\<close>

theorem written_rows_have_table_columns:
  "\<exists>rows. written_df env vs = Some rows \<and>
     (\<forall>r \<in> set rows.
        map fst r =
          [''event_id'', ''event_type'', ''user_id'', ''product_id'', ''session_id'',
           ''location'', ''device'', ''timestamp'', ''event_date'', ''ip_address'',
           ''category'', ''quantity'', ''price'', ''order_id'', ''amount''] \<and>
        map fst r = table_columns \<and> length r = 15 \<and>
        (\<forall>k. k \<notin> set table_columns \<longrightarrow> map_of r k = None))"
proof -
  have "map fst r =
          [''event_id'', ''event_type'', ''user_id'', ''product_id'', ''session_id'',
           ''location'', ''device'', ''timestamp'', ''event_date'', ''ip_address'',
           ''category'', ''quantity'', ''price'', ''order_id'', ''amount''] \<and>
        map fst r = table_columns \<and> length r = 15 \<and>
        (\<forall>k. k \<notin> set table_columns \<longrightarrow> map_of r k = None)"
    if "r \<in> set (map (table_row env) (filter (has_required env) vs))" for r
  proof -
    from that obtain v where r: "r = table_row env v" by auto
    have cols: "map fst r = table_columns" by (simp add: r map_fst_table_row)
    have "length (map fst r) = 15" unfolding cols by (simp add: table_columns_def)
    then have len: "length r = 15" by simp
    have "map_of r k = None" if "k \<notin> set table_columns" for k
      using that cols by (metis map_of_eq_None_iff set_map)
    then have none: "\<forall>k. k \<notin> set table_columns \<longrightarrow> map_of r k = None" by blast
    have "table_columns =
          [''event_id'', ''event_type'', ''user_id'', ''product_id'', ''session_id'',
           ''location'', ''device'', ''timestamp'', ''event_date'', ''ip_address'',
           ''category'', ''quantity'', ''price'', ''order_id'', ''amount'']"
      by (simp add: table_columns_def)
    with cols have "map fst r =
          [''event_id'', ''event_type'', ''user_id'', ''product_id'', ''session_id'',
           ''location'', ''device'', ''timestamp'', ''event_date'', ''ip_address'',
           ''category'', ''quantity'', ''price'', ''order_id'', ''amount'']"
      by (rule trans)
    with cols len none show ?thesis by (intro conjI)
  qed
  then have "\<forall>r \<in> set (map (table_row env) (filter (has_required env) vs)).
          map fst r =
          [''event_id'', ''event_type'', ''user_id'', ''product_id'', ''session_id'',
           ''location'', ''device'', ''timestamp'', ''event_date'', ''ip_address'',
           ''category'', ''quantity'', ''price'', ''order_id'', ''amount''] \<and>
          map fst r = table_columns \<and> length r = 15 \<and>
          (\<forall>k. k \<notin> set table_columns \<longrightarrow> map_of r k = None)"
    by (rule ballI)
  with written_df_rows [of env vs] show ?thesis
    by (intro exI [of _ "map (table_row env) (filter (has_required env) vs)"]) (rule conjI)
qed

theorem written_rows_have_table_columns_witness:
  "written_df utc_session [login_e1_with_cart] = Some [login_e1_row] \<and>
   map fst login_e1_row = table_columns \<and> length login_e1_row = 15 \<and>
   map_of login_e1_row ''cart_id'' = None"
proof -
  have w: "written_df utc_session [login_e1_with_cart] = Some [login_e1_row]"
    by (simp add: written_df_rows sample_defs login_e1_with_cart_def login_e1_row_def)
  have k: "''cart_id'' \<notin> set table_columns" by (simp add: table_columns_def)
  from written_rows_have_table_columns [of utc_session "[login_e1_with_cart]"]
  obtain rows where rows: "written_df utc_session [login_e1_with_cart] = Some rows"
    and cols: "\<forall>r \<in> set rows. map fst r = table_columns \<and> length r = 15 \<and>
                 (\<forall>k. k \<notin> set table_columns \<longrightarrow> map_of r k = None)"
    by blast
  from rows w have "rows = [login_e1_row]" by simp
  with cols have "map fst login_e1_row = table_columns \<and> length login_e1_row = 15 \<and>
        (\<forall>k. k \<notin> set table_columns \<longrightarrow> map_of login_e1_row k = None)"
    by simp
  with k w show ?thesis by blast
qed

lemma find_skip: "\<not> P y \<Longrightarrow> find P (xs @ y # ys) = find P (xs @ ys)"
  by (induction xs) simp_all

lemma member_skip:
  "\<not> field_match env k name \<Longrightarrow>
   member env (kvs1 @ (k, x) # kvs2) name = member env (kvs1 @ kvs2) name"
  by (simp add: member_def find_skip)

lemma field_value_skip:
  "\<not> field_match env k name \<Longrightarrow>
   field_value env (Json (JObject (kvs1 @ (k, x) # kvs2))) name t =
   field_value env (Json (JObject (kvs1 @ kvs2))) name t"
  by (simp add: field_value_def member_skip)

lemma field_value_absent:
  "member env kvs name = None \<or> member env kvs name = Some JNull \<Longrightarrow>
   field_value env (Json (JObject kvs)) name t = Null"
  by (auto simp: field_value_def)

lemma written_df_drop:
  "\<not> has_required env v \<Longrightarrow> written_df env (vs1 @ v # vs2) = written_df env (vs1 @ vs2)"
  by (simp add: written_df_rows)

lemma cleaned_df_drop:
  "\<not> has_required env v \<Longrightarrow> cleaned_df env (vs1 @ v # vs2) = cleaned_df env (vs1 @ vs2)"
  by (simp add: cleaned_df_rows)

subsection \<open>Members of the payload that the schema does not name\<close>

text \<open>
  C5, as the job has it. A member of the payload whose key fills no field of
  \<open>ecommerce_base_schema\<close> never makes the job reject the record, and it is not kept either:
  the rows written to the table and the rows printed as invalid are those of the same
  batch with that member taken out of the payload.
\<close>

theorem unknown_fields_are_ignored:
  assumes "\<forall>name \<in> set (map fst ecommerce_base_schema). \<not> field_match env k name"
  shows "written_df env (vs1 @ Json (JObject (kvs1 @ (k, x) # kvs2)) # vs2) =
         written_df env (vs1 @ Json (JObject (kvs1 @ kvs2)) # vs2) \<and>
         invalid_df env (vs1 @ Json (JObject (kvs1 @ (k, x) # kvs2)) # vs2) =
         invalid_df env (vs1 @ Json (JObject (kvs1 @ kvs2)) # vs2)"
proof -
  let ?v = "Json (JObject (kvs1 @ (k, x) # kvs2))" and ?w = "Json (JObject (kvs1 @ kvs2))"
  have same: "field_value env ?v name t = field_value env ?w name t"
    if "name \<in> set (map fst ecommerce_base_schema)" for name t
  proof -
    from assms that have "\<not> field_match env k name" by (rule bspec)
    then show ?thesis by (rule field_value_skip)
  qed
  have names: "''event_id'' \<in> set (map fst ecommerce_base_schema)"
    "''event_type'' \<in> set (map fst ecommerce_base_schema)"
    "''user_id'' \<in> set (map fst ecommerce_base_schema)"
    "''product_id'' \<in> set (map fst ecommerce_base_schema)"
    "''session_id'' \<in> set (map fst ecommerce_base_schema)"
    "''location'' \<in> set (map fst ecommerce_base_schema)"
    "''device'' \<in> set (map fst ecommerce_base_schema)"
    "''timestamp'' \<in> set (map fst ecommerce_base_schema)"
    "''ip_address'' \<in> set (map fst ecommerce_base_schema)"
    "''category'' \<in> set (map fst ecommerce_base_schema)"
    "''quantity'' \<in> set (map fst ecommerce_base_schema)"
    "''price'' \<in> set (map fst ecommerce_base_schema)"
    "''order_id'' \<in> set (map fst ecommerce_base_schema)"
    "''amount'' \<in> set (map fst ecommerce_base_schema)"
    by (simp_all add: ecommerce_base_schema_def)
  have t: "table_row env ?v = table_row env ?w"
    unfolding table_row_def by (simp only: same [OF names(1)] same [OF names(2)]
      same [OF names(3)] same [OF names(4)] same [OF names(5)] same [OF names(6)]
      same [OF names(7)] same [OF names(8)] same [OF names(9)] same [OF names(10)]
      same [OF names(11)] same [OF names(12)] same [OF names(13)] same [OF names(14)])
  have p: "parsed_row env ?v = parsed_row env ?w"
    unfolding parsed_row_def by (simp only: same [OF names(1)] same [OF names(2)]
      same [OF names(3)] same [OF names(4)] same [OF names(5)] same [OF names(6)]
      same [OF names(7)] same [OF names(8)] same [OF names(9)] same [OF names(10)]
      same [OF names(11)] same [OF names(12)] same [OF names(13)] same [OF names(14)])
  have h: "has_required env ?v = has_required env ?w"
    unfolding has_required_def
    by (simp only: same [OF names(1)] same [OF names(2)] same [OF names(3)] same [OF names(8)])
  have l: "lacks_id_or_type env ?v = lacks_id_or_type env ?w"
    unfolding lacks_id_or_type_def by (simp only: same [OF names(1)] same [OF names(2)])
  show ?thesis by (simp add: written_df_rows invalid_df_rows t p h l)
qed

theorem unknown_fields_are_ignored_witness:
  "written_df utc_session [login_e1_with_cart] = written_df utc_session [login_e1] \<and>
   invalid_df utc_session [login_e1_with_cart] = invalid_df utc_session [login_e1]"
proof -
  have "\<forall>name \<in> set (map fst ecommerce_base_schema). \<not> field_match utc_session ''cart_id'' name"
    by (simp add: ecommerce_base_schema_def utc_session_def)
  from unknown_fields_are_ignored [OF this, of "[]"
      "[(''event_id'', JString ''e1''), (''event_type'', JString ''login''),
        (''user_id'', JInt 1), (''session_id'', JString ''s1''),
        (''location'', JString ''Lagos''), (''device'', JString ''mobile''),
        (''timestamp'', JString ''2024-01-01T23:30:00Z'')]" "JString ''c9''" "[]" "[]"]
  show ?thesis by (simp add: login_e1_with_cart_def login_e1_def)
qed

text \<open>
  C5 as stated fails: the payload \<open>login_e1_with_cart\<close> has the member \<open>cart_id\<close>, which
  the schema does not name. Its record is written, as the same row as \<open>login_e1\<close>, and
  neither the key \<open>cart_id\<close> nor its value is in that row.
\<close>

theorem unknown_field_not_preserved:
  "written_df utc_session [login_e1_with_cart] = Some [login_e1_row] \<and>
   written_df utc_session [login_e1_with_cart] = written_df utc_session [login_e1] \<and>
   (''cart_id'', StringV ''c9'') \<notin> set login_e1_row \<and>
   ''cart_id'' \<notin> set (map fst login_e1_row)"
  by (simp add: written_df_rows sample_defs login_e1_with_cart_def login_e1_def login_e1_row_def)

subsection \<open>Records without a required field\<close>

lemma absent_not_required:
  assumes "c \<in> set required_fields"
    and "member env kvs c = None \<or> member env kvs c = Some JNull"
  shows "\<not> has_required env (Json (JObject kvs))"
proof -
  from assms(2) have null: "field_value env (Json (JObject kvs)) c t = Null" for t
    by (rule field_value_absent)
  from assms(1) have "c = ''event_id'' \<or> c = ''event_type'' \<or> c = ''user_id'' \<or> c = ''timestamp''"
    by (simp add: required_fields_def)
  then show ?thesis
  proof (elim disjE)
    assume "c = ''event_id''"
    with null [of StringType] show ?thesis by (simp add: has_required_def)
  next
    assume "c = ''event_type''"
    with null [of StringType] show ?thesis by (simp add: has_required_def)
  next
    assume "c = ''user_id''"
    with null [of IntegerType] show ?thesis by (simp add: has_required_def)
  next
    assume "c = ''timestamp''"
    with null [of StringType] show ?thesis by (simp add: has_required_def)
  qed
qed

lemma absent_lacks_id_or_type:
  assumes "c = ''event_id'' \<or> c = ''event_type''"
    and "member env kvs c = None \<or> member env kvs c = Some JNull"
  shows "lacks_id_or_type env (Json (JObject kvs))"
proof -
  from assms(2) have null: "field_value env (Json (JObject kvs)) c StringType = Null"
    by (rule field_value_absent)
  from assms(1) show ?thesis
  proof
    assume "c = ''event_id''"
    with null show ?thesis by (simp add: lacks_id_or_type_def)
  next
    assume "c = ''event_type''"
    with null show ?thesis by (simp add: lacks_id_or_type_def)
  qed
qed

lemma table_row_required:
  assumes "has_required env v"
  shows "\<forall>c \<in> set required_fields. \<exists>x. map_of (table_row env v) c = Some x \<and> x \<noteq> Null"
  using assms by (simp add: required_fields_def table_row_def has_required_def)

text \<open>
  C4, as the job has it. Every row written to the table has the four columns of
  \<open>required_fields\<close> (event\_id, event\_type, user\_id, timestamp) present and not null.
  A record in whose payload one of the four is missing or null adds no row to the table:
  the batch writes what it writes without that record. When the missing or null field is
  event\_id or event\_type, the parsed row of the record is what the query
  \<open>invalid_records_console\<close> prints for it: the row as parsed, with no failure reason.
\<close>

theorem required_fields_enforced:
  "(\<exists>rows. written_df env vs = Some rows \<and>
      (\<forall>r \<in> set rows. \<forall>c \<in> set required_fields. \<exists>x. map_of r c = Some x \<and> x \<noteq> Null)) \<and>
   (c \<in> set required_fields \<and>
      (member env kvs c = None \<or> member env kvs c = Some JNull) \<longrightarrow>
      written_df env (vs1 @ Json (JObject kvs) # vs2) = written_df env (vs1 @ vs2)) \<and>
   ((c = ''event_id'' \<or> c = ''event_type'') \<and>
      (member env kvs c = None \<or> member env kvs c = Some JNull) \<longrightarrow>
      (\<exists>row. parsed_df env [Json (JObject kvs)] = Some [row] \<and>
             invalid_df env [Json (JObject kvs)] = Some [row]))"
proof (intro conjI impI)
  have "\<forall>c \<in> set required_fields. \<exists>x. map_of r c = Some x \<and> x \<noteq> Null"
    if "r \<in> set (map (table_row env) (filter (has_required env) vs))" for r
  proof -
    from that obtain v where r: "r = table_row env v" and "has_required env v" by auto
    from this(2) show ?thesis unfolding r by (rule table_row_required)
  qed
  then have "\<forall>r \<in> set (map (table_row env) (filter (has_required env) vs)).
      \<forall>c \<in> set required_fields. \<exists>x. map_of r c = Some x \<and> x \<noteq> Null"
    by (rule ballI)
  with written_df_rows [of env vs]
  show "\<exists>rows. written_df env vs = Some rows \<and>
      (\<forall>r \<in> set rows. \<forall>c \<in> set required_fields. \<exists>x. map_of r c = Some x \<and> x \<noteq> Null)"
    by (intro exI [of _ "map (table_row env) (filter (has_required env) vs)"]) (rule conjI)
next
  assume "c \<in> set required_fields \<and>
      (member env kvs c = None \<or> member env kvs c = Some JNull)"
  then have "\<not> has_required env (Json (JObject kvs))"
    using absent_not_required by blast
  then show "written_df env (vs1 @ Json (JObject kvs) # vs2) = written_df env (vs1 @ vs2)"
    by (rule written_df_drop)
next
  assume "(c = ''event_id'' \<or> c = ''event_type'') \<and>
      (member env kvs c = None \<or> member env kvs c = Some JNull)"
  then have "lacks_id_or_type env (Json (JObject kvs))"
    using absent_lacks_id_or_type by blast
  then have "parsed_df env [Json (JObject kvs)] = Some [parsed_row env (Json (JObject kvs))] \<and>
     invalid_df env [Json (JObject kvs)] = Some [parsed_row env (Json (JObject kvs))]"
    by (simp add: parsed_df_rows invalid_df_rows)
  then show "\<exists>row. parsed_df env [Json (JObject kvs)] = Some [row] \<and>
             invalid_df env [Json (JObject kvs)] = Some [row]"
    by (rule exI)
qed


theorem required_fields_enforced_witness:
  "written_df utc_session [login_no_id, login_e1] = written_df utc_session [login_e1] \<and>
   written_df utc_session [login_e1] = Some [login_e1_row] \<and>
   (\<exists>row. parsed_df utc_session [login_no_id] = Some [row] \<and>
          invalid_df utc_session [login_no_id] = Some [row])"
proof -
  let ?kvs = "[(''event_type'', JString ''login''), (''user_id'', JInt 1),
        (''session_id'', JString ''s1''), (''location'', JString ''Lagos''),
        (''device'', JString ''mobile''), (''timestamp'', JString ''2024-01-01T23:30:00Z'')]"
  have c: "''event_id'' \<in> set required_fields" by (simp add: required_fields_def)
  have m: "member utc_session ?kvs ''event_id'' = None"
    by (simp add: member_def utc_session_def)
  have w: "written_df utc_session [login_e1] = Some [login_e1_row]"
    by (simp add: written_df_rows sample_defs login_e1_def login_e1_row_def)
  from required_fields_enforced [of utc_session "[login_e1]" "''event_id''" ?kvs "[]" "[login_e1]"]
    c m w
  show ?thesis by (simp add: login_no_id_def)
qed

text \<open>
  C4 as stated fails at the record \<open>login_e1_no_user\<close>, which has no \<open>user_id\<close>: it is kept
  out of the table and it is not among the invalid records either, so nothing records it
  with a reason \<open>missing_required_field:user_id\<close>.
\<close>

theorem missing_user_id_not_dead_lettered:
  "written_df utc_session [login_e1_no_user] = Some [] \<and>
   invalid_df utc_session [login_e1_no_user] = Some []"
  by (simp add: written_df_rows invalid_df_rows sample_defs login_e1_no_user_def)

subsection \<open>A timestamp that is no date\<close>

text \<open>
  C7, as the job has it. A record whose \<open>timestamp\<close> is a string that the cast to timestamp
  refuses gets a null \<open>timestamp\<close> and a null \<open>event_date\<close>, and \<open>dropna\<close> removes it with
  the records that lack a required field: \<open>cleaned_df\<close> and the rows written are those of
  the batch without it, so no partition is ever computed for it. The query
  \<open>invalid_records_console\<close> prints it exactly when its event\_id or event\_type is null.
\<close>

theorem unparseable_timestamp_dropped:
  assumes "member env kvs ''timestamp'' = Some (JString s)"
    and "parse_timestamp env s = None"
  shows "cleaned_df env (vs1 @ Json (JObject kvs) # vs2) = cleaned_df env (vs1 @ vs2) \<and>
         written_df env (vs1 @ Json (JObject kvs) # vs2) = written_df env (vs1 @ vs2) \<and>
         (\<exists>row. parsed_df env [Json (JObject kvs)] = Some [row] \<and>
                map_of row ''timestamp'' = Some Null \<and>
                map_of row ''event_date'' = Some Null \<and>
                invalid_df env [Json (JObject kvs)] =
                  Some (if is_invalid row = Some True then [row] else []))"
proof -
  let ?v = "Json (JObject kvs)"
  from assms have ts: "cast_timestamp env (field_value env ?v ''timestamp'' StringType) = Null"
    by (simp add: field_value_def opt_cell_def)
  then have "\<not> has_required env ?v" by (simp add: has_required_def)
  then have drop: "cleaned_df env (vs1 @ ?v # vs2) = cleaned_df env (vs1 @ vs2)"
    "written_df env (vs1 @ ?v # vs2) = written_df env (vs1 @ vs2)"
    by (rule cleaned_df_drop, rule written_df_drop)
  from ts have cells: "map_of (parsed_row env ?v) ''timestamp'' = Some Null"
    "map_of (parsed_row env ?v) ''event_date'' = Some Null"
    by (simp_all add: parsed_row_def)
  have "parsed_df env [?v] = Some [parsed_row env ?v] \<and>
        map_of (parsed_row env ?v) ''timestamp'' = Some Null \<and>
        map_of (parsed_row env ?v) ''event_date'' = Some Null \<and>
        invalid_df env [?v] =
          Some (if is_invalid (parsed_row env ?v) = Some True then [parsed_row env ?v] else [])"
    using cells by (simp add: parsed_df_rows invalid_df_rows is_invalid_parsed_row)
  then have "\<exists>row. parsed_df env [?v] = Some [row] \<and>
                map_of row ''timestamp'' = Some Null \<and>
                map_of row ''event_date'' = Some Null \<and>
                invalid_df env [?v] = Some (if is_invalid row = Some True then [row] else [])"
    by (rule exI)
  with drop show ?thesis by (intro conjI)
qed

theorem unparseable_timestamp_dropped_witness:
  "cleaned_df utc_session [login_e1_bad_time, login_e1] = cleaned_df utc_session [login_e1] \<and>
   written_df utc_session [login_e1_bad_time, login_e1] = Some [login_e1_row]"
proof -
  let ?kvs = "[(''event_id'', JString ''e1''), (''event_type'', JString ''login''),
        (''user_id'', JInt 1), (''session_id'', JString ''s1''),
        (''location'', JString ''Lagos''), (''device'', JString ''mobile''),
        (''timestamp'', JString ''yesterday'')]"
  have m: "member utc_session ?kvs ''timestamp'' = Some (JString ''yesterday'')"
    by (simp add: member_def utc_session_def)
  have p: "parse_timestamp utc_session ''yesterday'' = None"
    by (simp add: utc_session_def)
  have w: "written_df utc_session [login_e1] = Some [login_e1_row]"
    by (simp add: written_df_rows sample_defs login_e1_def login_e1_row_def)
  from unparseable_timestamp_dropped [OF m p, of "[]" "[login_e1]"] w
  show ?thesis by (simp add: login_e1_bad_time_def)
qed

text \<open>
  C7 as stated fails at \<open>login_e1_bad_time\<close>, whose timestamp is the string
  \<open>yesterday\<close>: the record is neither written nor among the invalid records.
\<close>

theorem unparseable_timestamp_silently_dropped:
  "written_df utc_session [login_e1_bad_time] = Some [] \<and>
   invalid_df utc_session [login_e1_bad_time] = Some []"
  by (simp add: written_df_rows invalid_df_rows sample_defs login_e1_bad_time_def)

subsection \<open>The partition of a row\<close>

lemma convert_string_cases:
  "convert_field env StringType j = Null \<or> (\<exists>s. convert_field env StringType j = StringV s)"
  by (cases j) (simp_all add: opt_cell_def split: option.split)

lemma string_field_cases:
  "field_value env v name StringType = Null \<or>
   (\<exists>s. field_value env v name StringType = StringV s)"
  using convert_string_cases
  by (simp add: field_value_def split: kafka_value.split json.split option.split)

lemma cast_timestamp_cases:
  "cast_timestamp env c = Null \<or> (\<exists>t. cast_timestamp env c = TimestampV t)"
  by (cases c) (simp_all add: opt_cell_def split: option.split)

lemma table_row_partition:
  assumes "has_required env v"
  shows "\<exists>ty t.
        map_of (table_row env v) ''event_type'' = Some (StringV ty) \<and>
        map_of (table_row env v) ''timestamp'' = Some (TimestampV t) \<and>
        map_of (table_row env v) ''event_date'' =
          Some (StringV (format_day env (local_day env t))) \<and>
        partitionKey (table_row env v) =
          Some [StringV ty, StringV (format_day env (local_day env t))]"
proof -
  from assms have "field_value env v ''event_type'' StringType \<noteq> Null"
    and "cast_timestamp env (field_value env v ''timestamp'' StringType) \<noteq> Null"
    by (simp_all add: has_required_def)
  with string_field_cases [of env v "''event_type''"]
    cast_timestamp_cases [of env "field_value env v ''timestamp'' StringType"]
  obtain ty t where ty: "field_value env v ''event_type'' StringType = StringV ty"
    and t: "cast_timestamp env (field_value env v ''timestamp'' StringType) = TimestampV t"
    by blast
  have "map_of (table_row env v) ''event_type'' = Some (StringV ty) \<and>
        map_of (table_row env v) ''timestamp'' = Some (TimestampV t) \<and>
        map_of (table_row env v) ''event_date'' =
          Some (StringV (format_day env (local_day env t))) \<and>
        partitionKey (table_row env v) =
          Some [StringV ty, StringV (format_day env (local_day env t))]"
    by (simp add: table_row_def partitionKey_def partitioned_by_def ty t)
  then show ?thesis by blast
qed

text \<open>
  C3, as the job has it. Every row written to the table has an event type and a timestamp,
  and its partition is the pair of its event type and its \<open>event_date\<close>, where
  \<open>event_date\<close> is the calendar date of the timestamp in the time zone of the Spark
  session. The partition is a function of the row alone: two written rows with the same
  event type and the same session-local date of their timestamps have the same partition.
  In a session whose zone is UTC, \<open>event_date\<close> is the UTC calendar date.
\<close>

theorem partition_key_is_type_and_session_date:
  "\<exists>rows. written_df env vs = Some rows \<and>
     (\<forall>r \<in> set rows. \<exists>ty t.
        map_of r ''event_type'' = Some (StringV ty) \<and>
        map_of r ''timestamp'' = Some (TimestampV t) \<and>
        map_of r ''event_date'' = Some (StringV (format_day env (local_day env t))) \<and>
        partitionKey r = Some [StringV ty, StringV (format_day env (local_day env t))]) \<and>
     (\<forall>r1 \<in> set rows. \<forall>r2 \<in> set rows. \<forall>t1 t2.
        map_of r1 ''event_type'' = map_of r2 ''event_type'' \<and>
        map_of r1 ''timestamp'' = Some (TimestampV t1) \<and>
        map_of r2 ''timestamp'' = Some (TimestampV t2) \<and>
        local_day env t1 = local_day env t2 \<longrightarrow>
        partitionKey r1 = partitionKey r2) \<and>
     ((\<forall>t. zone_offset env t = 0) \<longrightarrow>
        (\<forall>r \<in> set rows. \<exists>t.
           map_of r ''timestamp'' = Some (TimestampV t) \<and>
           map_of r ''event_date'' = Some (StringV (format_day env (t div 86400000000)))))"
proof -
  let ?rows = "map (table_row env) (filter (has_required env) vs)"
  define ty_of where "ty_of r = map_of r ''event_type''" for r :: row
  define ts_of where "ts_of r = map_of r ''timestamp''" for r :: row
  define date_of where "date_of r = map_of r ''event_date''" for r :: row
  have row: "\<exists>ty t. ty_of r = Some (StringV ty) \<and> ts_of r = Some (TimestampV t) \<and>
        date_of r = Some (StringV (format_day env (local_day env t))) \<and>
        partitionKey r = Some [StringV ty, StringV (format_day env (local_day env t))]"
    if "r \<in> set ?rows" for r
  proof -
    from that obtain v where r: "r = table_row env v" and "has_required env v" by auto
    from this(2) show ?thesis unfolding r ty_of_def ts_of_def date_of_def
      by (rule table_row_partition)
  qed
  have det: "partitionKey r1 = partitionKey r2"
    if "r1 \<in> set ?rows" "r2 \<in> set ?rows" "ty_of r1 = ty_of r2"
      "ts_of r1 = Some (TimestampV t1)" "ts_of r2 = Some (TimestampV t2)"
      "local_day env t1 = local_day env t2" for r1 r2 t1 t2
  proof -
    from row [OF that(1)] that(4) obtain ty1 where
      1: "ty_of r1 = Some (StringV ty1)"
        "partitionKey r1 = Some [StringV ty1, StringV (format_day env (local_day env t1))]"
      by auto
    from row [OF that(2)] that(5) obtain ty2 where
      2: "ty_of r2 = Some (StringV ty2)"
        "partitionKey r2 = Some [StringV ty2, StringV (format_day env (local_day env t2))]"
      by auto
    from 1(1) 2(1) that(3) have "ty1 = ty2" by simp
    with 1(2) 2(2) that(6) show ?thesis by simp
  qed
  have utc: "\<exists>t. ts_of r = Some (TimestampV t) \<and>
           date_of r = Some (StringV (format_day env (t div 86400000000)))"
    if "\<forall>t. zone_offset env t = 0" "r \<in> set ?rows" for r
  proof -
    from row [OF that(2)] obtain t where "ts_of r = Some (TimestampV t)"
      "date_of r = Some (StringV (format_day env (local_day env t)))" by blast
    moreover from that(1) have "local_day env t = t div 86400000000"
      by (simp add: local_day_def)
    ultimately show ?thesis by auto
  qed
  have "(\<forall>r \<in> set ?rows. \<exists>ty t.
        ty_of r = Some (StringV ty) \<and> ts_of r = Some (TimestampV t) \<and>
        date_of r = Some (StringV (format_day env (local_day env t))) \<and>
        partitionKey r = Some [StringV ty, StringV (format_day env (local_day env t))]) \<and>
     (\<forall>r1 \<in> set ?rows. \<forall>r2 \<in> set ?rows. \<forall>t1 t2.
        ty_of r1 = ty_of r2 \<and> ts_of r1 = Some (TimestampV t1) \<and>
        ts_of r2 = Some (TimestampV t2) \<and> local_day env t1 = local_day env t2 \<longrightarrow>
        partitionKey r1 = partitionKey r2) \<and>
     ((\<forall>t. zone_offset env t = 0) \<longrightarrow>
        (\<forall>r \<in> set ?rows. \<exists>t. ts_of r = Some (TimestampV t) \<and>
           date_of r = Some (StringV (format_day env (t div 86400000000)))))"
    using row det utc by blast
  with written_df_rows [of env vs] show ?thesis
    unfolding ty_of_def ts_of_def date_of_def
    by (intro exI [of _ ?rows]) (rule conjI)
qed

theorem partition_key_is_type_and_session_date_witness:
  "written_df utc_session [login_e1] = Some [login_e1_row] \<and>
   partitionKey login_e1_row = Some [StringV ''login'', StringV ''2024-01-01''] \<and>
   map_of login_e1_row ''timestamp'' = Some (TimestampV 1704151800000000) \<and>
   format_day utc_session (1704151800000000 div 86400000000) = ''2024-01-01''"
proof -
  have w: "written_df utc_session [login_e1] = Some [login_e1_row]"
    by (simp add: written_df_rows sample_defs login_e1_def login_e1_row_def)
  from partition_key_is_type_and_session_date [of utc_session "[login_e1]"]
  obtain rows where rows: "written_df utc_session [login_e1] = Some rows"
    and key: "\<forall>r \<in> set rows. \<exists>ty t.
        map_of r ''event_type'' = Some (StringV ty) \<and>
        map_of r ''timestamp'' = Some (TimestampV t) \<and>
        map_of r ''event_date'' =
          Some (StringV (format_day utc_session (local_day utc_session t))) \<and>
        partitionKey r =
          Some [StringV ty, StringV (format_day utc_session (local_day utc_session t))]"
    by blast
  from rows w have "rows = [login_e1_row]" by simp
  with key obtain ty t where
    "map_of login_e1_row ''event_type'' = Some (StringV ty)"
    "map_of login_e1_row ''timestamp'' = Some (TimestampV t)"
    "partitionKey login_e1_row =
       Some [StringV ty, StringV (format_day utc_session (local_day utc_session t))]"
    by auto
  moreover have "map_of login_e1_row ''event_type'' = Some (StringV ''login'')"
    "map_of login_e1_row ''timestamp'' = Some (TimestampV 1704151800000000)"
    by (simp_all add: login_e1_row_def)
  ultimately have "partitionKey login_e1_row =
       Some [StringV ''login'',
             StringV (format_day utc_session (local_day utc_session 1704151800000000))]"
    by simp
  moreover have d: "format_day utc_session (1704151800000000 div 86400000000) = ''2024-01-01''"
    "local_day utc_session 1704151800000000 = 1704151800000000 div 86400000000"
    by (simp_all add: utc_session_def local_day_def)
  ultimately show ?thesis using w
    by (simp add: login_e1_row_def)
qed

text \<open>
  C3 as stated fails in a session one hour east of UTC: the timestamp of \<open>login_e1\<close> is
  2024-01-01T23:30:00Z, whose UTC calendar date is 2024-01-01, and the partition of the
  written row is (login, 2024-01-02).
\<close>

theorem event_date_is_not_the_utc_date:
  "map_option (map partitionKey) (written_df plus1_session [login_e1]) =
     Some [Some [StringV ''login'', StringV ''2024-01-02'']] \<and>
   map_option (map (col ''timestamp'')) (written_df plus1_session [login_e1]) =
     Some [Some (TimestampV 1704151800000000)] \<and>
   format_day plus1_session (1704151800000000 div 86400000000) = ''2024-01-01''"
  by (simp add: written_df_rows sample_defs login_e1_def partitionKey_def partitioned_by_def
      col_def)

subsection \<open>The fields that the ingress requires\<close>

lemma map_of_skip:
  "name \<noteq> k \<Longrightarrow> map_of (kvs1 @ (k, x) # kvs2) name = map_of (kvs1 @ kvs2) name"
  by (simp add: map_of_append map_add_def split: option.split)

lemma validate_fields_skip:
  "k \<notin> set (map fst fs) \<Longrightarrow>
   validate_fields env fs (kvs1 @ (k, x) # kvs2) = validate_fields env fs (kvs1 @ kvs2)"
proof (induction fs)
  case Nil
  show ?case by simp
next
  case (Cons f fs)
  obtain name a where f: "f = (name, a)" by (cases f)
  from Cons.prems have "name \<noteq> k" and "k \<notin> set (map fst fs)" by (auto simp: f)
  with Cons.IH show ?case by (simp add: f map_of_skip del: map_of_append)
qed

lemma validate_fields_missing:
  "name \<in> set (map fst fs) \<Longrightarrow> map_of body name = None \<Longrightarrow>
   Missing name \<in> set (fst (validate_fields env fs body))"
proof (induction fs)
  case Nil
  then show ?case by simp
next
  case (Cons f fs)
  obtain n a where f: "f = (n, a)" by (cases f)
  show ?case
  proof (cases "n = name")
    case True
    with Cons.prems(2) show ?thesis
      by (simp add: f split: prod.split)
  next
    case False
    with Cons.prems have "name \<in> set (map fst fs)" by (simp add: f)
    with Cons.IH Cons.prems(2)
    have "Missing name \<in> set (fst (validate_fields env fs body))" by simp
    then show ?thesis
      by (auto simp: f split: prod.split option.split)
  qed
qed

lemma event_dict_missing:
  assumes "name \<in> set (map fst EventModel)" and "map_of kvs name = None"
  shows "\<exists>errors. event_dict env kvs = Inl errors \<and> Missing name \<in> set errors"
proof -
  from assms have m: "Missing name \<in> set (fst (validate_fields env EventModel kvs))"
    by (rule validate_fields_missing)
  obtain errors vals where v: "validate_fields env EventModel kvs = (errors, vals)"
    by (cases "validate_fields env EventModel kvs")
  with m have "Missing name \<in> set errors" by simp
  then show ?thesis
    by (cases errors) (simp_all add: event_dict_def v)
qed

lemma event_dict_extra:
  assumes "event_dict env (kvs1 @ kvs2) = Inr d" and "k \<notin> set (map fst EventModel)"
  shows "\<exists>d'. event_dict env (kvs1 @ (k, x) # kvs2) = Inr d' \<and> (k, x) \<in> set d'"
proof -
  obtain errors vals where v: "validate_fields env EventModel (kvs1 @ kvs2) = (errors, vals)"
    by (cases "validate_fields env EventModel (kvs1 @ kvs2)")
  with assms(1) have e: "errors = []"
    by (cases errors) (simp_all add: event_dict_def)
  from assms(2) have "validate_fields env EventModel (kvs1 @ (k, x) # kvs2) = (errors, vals)"
    by (simp add: validate_fields_skip v)
  with e assms(2) show ?thesis
    by (simp add: event_dict_def)
qed

text \<open>
  C9. \<open>POST /events\<close> answers a body that lacks one of the seven fields event\_id,
  event\_type, user\_id, session\_id, location, device, timestamp with a validation error
  that names the field as missing, and produces nothing. A member whose key is none of
  the seven is accepted wherever it stands in the body: if the body passes validation
  without it, it passes with it, and the member is part of the event that is sent on.
\<close>

theorem ingress_requires_seven_fields:
  "(name \<in> set [''event_id'', ''event_type'', ''user_id'', ''session_id'', ''location'',
                 ''device'', ''timestamp''] \<and> map_of kvs name = None \<longrightarrow>
      (\<exists>errors. send_event env (JObject kvs) queue = (Unprocessable errors, queue) \<and>
                Missing name \<in> set errors)) \<and>
   (event_dict env (kvs1 @ kvs2) = Inr d \<and> k \<notin> set (map fst EventModel) \<longrightarrow>
      (\<exists>d'. event_dict env (kvs1 @ (k, x) # kvs2) = Inr d' \<and> (k, x) \<in> set d' \<and>
            (\<forall>errors. fst (send_event env (JObject (kvs1 @ (k, x) # kvs2)) queue)
                      \<noteq> Unprocessable errors)))"
proof (intro conjI impI)
  assume a: "name \<in> set [''event_id'', ''event_type'', ''user_id'', ''session_id'',
                 ''location'', ''device'', ''timestamp''] \<and> map_of kvs name = None"
  then have "name \<in> set (map fst EventModel)" by (simp add: EventModel_def)
  with a obtain errors where "event_dict env kvs = Inl errors" "Missing name \<in> set errors"
    using event_dict_missing by blast
  then have "send_event env (JObject kvs) queue = (Unprocessable errors, queue) \<and>
                Missing name \<in> set errors"
    by (simp add: send_event_def)
  then show "\<exists>errors. send_event env (JObject kvs) queue = (Unprocessable errors, queue) \<and>
                Missing name \<in> set errors" by (rule exI)
next
  assume "event_dict env (kvs1 @ kvs2) = Inr d \<and> k \<notin> set (map fst EventModel)"
  then obtain d' where d': "event_dict env (kvs1 @ (k, x) # kvs2) = Inr d'" "(k, x) \<in> set d'"
    using event_dict_extra by blast
  have "fst (send_event env (JObject (kvs1 @ (k, x) # kvs2)) queue) \<noteq> Unprocessable errors"
    for errors
    by (simp add: send_event_def d' Let_def split: option.split)
  with d' show "\<exists>d'. event_dict env (kvs1 @ (k, x) # kvs2) = Inr d' \<and> (k, x) \<in> set d' \<and>
            (\<forall>errors. fst (send_event env (JObject (kvs1 @ (k, x) # kvs2)) queue)
                      \<noteq> Unprocessable errors)"
    by blast
qed

theorem ingress_requires_seven_fields_witness:
  "send_event strict_api (JObject (tl login_body)) [] =
     (Unprocessable [Missing ''event_id''], []) \<and>
   event_dict strict_api login_body = Inr login_body \<and>
   event_dict strict_api (login_body @ [(''cart_id'', JString ''c9'')]) =
     Inr (login_body @ [(''cart_id'', JString ''c9'')]) \<and>
   send_event strict_api (JObject (login_body @ [(''cart_id'', JString ''c9'')])) [] =
     (Event_sent (login_body @ [(''cart_id'', JString ''c9'')]),
      [\<lparr>topic = ''ecommerce_events'', key = JString ''s1'',
        payload = Json (JObject (login_body @ [(''cart_id'', JString ''c9'')]))\<rparr>])"
proof -
  have n: "''event_id'' \<in> set [''event_id'', ''event_type'', ''user_id'', ''session_id'',
      ''location'', ''device'', ''timestamp''] \<and> map_of (tl login_body) ''event_id'' = None"
    by (simp add: login_body_def)
  have d: "event_dict strict_api (login_body @ []) = Inr login_body \<and>
      ''cart_id'' \<notin> set (map fst EventModel)"
    by (simp add: event_dict_def EventModel_def login_body_def strict_api_def)
  have s1: "send_event strict_api (JObject (tl login_body)) [] =
     (Unprocessable [Missing ''event_id''], [])"
    by (simp add: send_event_def event_dict_def EventModel_def login_body_def strict_api_def)
  have s2: "send_event strict_api (JObject (login_body @ [(''cart_id'', JString ''c9'')])) [] =
     (Event_sent (login_body @ [(''cart_id'', JString ''c9'')]),
      [\<lparr>topic = ''ecommerce_events'', key = JString ''s1'',
        payload = Json (JObject (login_body @ [(''cart_id'', JString ''c9'')]))\<rparr>])"
    by (simp add: send_event_def event_dict_def EventModel_def login_body_def strict_api_def)
  have e2: "event_dict strict_api (login_body @ [(''cart_id'', JString ''c9'')]) =
     Inr (login_body @ [(''cart_id'', JString ''c9'')])"
    by (simp add: event_dict_def EventModel_def login_body_def strict_api_def)
  from ingress_requires_seven_fields [of "''event_id''" "tl login_body" strict_api "[]"
      login_body "[]" login_body "''cart_id''" "JString ''c9''"] n d s1 s2 e2
  show ?thesis by simp
qed

subsection \<open>A failed write\<close>

text \<open>
  The write is started once in every execution of the block: \<open>toTable\<close> counts a start,
  and no other statement of the body, of the handler or of the \<open>finally\<close> clause does.
\<close>

lemma and_then_started:
  assumes "\<And>s. started (snd (m s)) = k + started s"
    and "\<And>x s. started (snd (f x s)) = started s"
  shows "started (snd (and_then m f s)) = k + started s"
proof (cases "m s")
  case (Pair out s')
  with assms(1) [of s] have s': "started s' = k + started s" by simp
  show ?thesis
  proof (cases out)
    case (Returns x)
    with Pair assms(2) [of x s'] s' show ?thesis by (simp add: and_then_def)
  next
    case (Raises e)
    with Pair s' show ?thesis by (simp add: and_then_def)
  next
    case Blocks
    with Pair s' show ?thesis by (simp add: and_then_def)
  qed
qed

lemma run_finally_started:
  assumes "\<And>s. started (snd (final s)) = started s"
  shows "started (snd (run_finally final out s)) = started s"
  using assms [of s]
  by (cases "final s") (simp add: run_finally_def split: outcome.split)

lemma try_started:
  assumes body: "\<And>s. started (snd (body s)) = k + started s"
    and handler: "\<And>e s. started (snd (handler e s)) = started s"
    and final: "\<And>s. started (snd (final s)) = started s"
  shows "started (snd (try_except_Exception_finally body handler final s)) = k + started s"
proof (cases "body s")
  case (Pair out s1)
  with body [of s] have s1: "started s1 = k + started s" by simp
  note fin = run_finally_started [of final, OF final]
  show ?thesis
  proof (cases out)
    case (Returns x)
    with Pair s1 fin show ?thesis by (simp add: try_except_Exception_finally_def)
  next
    case Blocks
    with Pair s1 show ?thesis by (simp add: try_except_Exception_finally_def)
  next
    case (Raises e)
    show ?thesis
    proof (cases e)
      case (BaseException m)
      with Raises Pair s1 fin show ?thesis by (simp add: try_except_Exception_finally_def)
    next
      case (Exception m)
      obtain out2 s2 where h: "handler (Exception m) s1 = (out2, s2)"
        by (cases "handler (Exception m) s1")
      with handler [of "Exception m" s1] s1 have "started s2 = k + started s" by simp
      with Exception Raises Pair h fin show ?thesis
        by (cases out2) (simp_all add: try_except_Exception_finally_def)
    qed
  qed
qed

lemma toTable_started: "started (snd (toTable runs s)) = 1 + started s"
  by (simp add: toTable_def split: run.split)

lemma logger_info_started: "started (snd (logger_info msg s)) = started s"
  by (simp add: logger_info_def)

lemma logger_error_started: "started (snd (logger_error msg s)) = started s"
  by (simp add: logger_error_def)

lemma spark_stop_started: "started (snd (spark_stop s)) = started s"
  by (simp add: spark_stop_def)

lemma reraise_started: "started (snd (reraise e s)) = started s"
  by (simp add: reraise_def)

lemma awaitAnyTermination_started: "started (snd (awaitAnyTermination query s)) = started s"
  by (simp add: awaitAnyTermination_def split: await.split)

lemma and_then_started0:
  assumes "\<And>s. started (snd (m s)) = started s"
    and "\<And>x s. started (snd (f x s)) = started s"
  shows "started (snd (and_then m f s)) = started s"
  using and_then_started [of m 0 f s] assms by simp

lemma write_stream_started: "started (snd (write_stream runs s)) = Suc (started s)"
proof -
  have body: "started (snd (and_then (toTable runs) (\<lambda>query.
        and_then (logger_info ''Streaming query started'') (\<lambda>u.
        and_then (logger_info ''Checkpoint location'') (\<lambda>u.
        awaitAnyTermination query))) s)) = 1 + started s" for s
    by (intro and_then_started and_then_started0 toTable_started logger_info_started
        awaitAnyTermination_started)
  have handler: "started (snd (and_then
        (logger_error (''Streaming query failed: '' @ exn_str e)) (\<lambda>u. reraise e) s))
      = started s" for e s
    by (intro and_then_started0 logger_error_started reraise_started)
  have "started (snd (write_stream runs s)) = 1 + started s"
    unfolding write_stream_def
    by (rule try_started) (rule body, rule handler, rule spark_stop_started)
  then show ?thesis by simp
qed

text \<open>The block on each way in which the first run can fail.\<close>

lemmas block_defs =
  write_stream_def try_except_Exception_finally_def run_finally_def and_then_def
  toTable_def awaitAnyTermination_def logger_info_def logger_error_def spark_stop_def
  reraise_def

lemma write_stream_start_Exception:
  "runs (started s) = Start_raises (Exception m) \<Longrightarrow>
   write_stream runs s =
     (Raises (Exception m),
      s\<lparr>log := log s @ [''ERROR Streaming query failed: '' @ m],
        spark_stopped := True, started := Suc (started s)\<rparr>)"
  by (simp add: block_defs)

lemma write_stream_start_BaseException:
  "runs (started s) = Start_raises (BaseException m) \<Longrightarrow>
   write_stream runs s =
     (Raises (BaseException m), s\<lparr>spark_stopped := True, started := Suc (started s)\<rparr>)"
  by (simp add: block_defs)

lemma write_stream_await_Exception:
  "runs (started s) = Started (Await_raises (Exception m)) \<Longrightarrow>
   write_stream runs s =
     (Raises (Exception m),
      s\<lparr>log := log s @ [''INFO Streaming query started'', ''INFO Checkpoint location'',
                        ''ERROR Streaming query failed: '' @ m],
        spark_stopped := True, started := Suc (started s)\<rparr>)"
  by (simp add: block_defs)

lemma write_stream_await_BaseException:
  "runs (started s) = Started (Await_raises (BaseException m)) \<Longrightarrow>
   write_stream runs s =
     (Raises (BaseException m),
      s\<lparr>log := log s @ [''INFO Streaming query started'', ''INFO Checkpoint location''],
        spark_stopped := True, started := Suc (started s)\<rparr>)"
  by (simp add: block_defs)

lemma write_stream_failure:
  assumes "runs (started s) = Start_raises e \<or> runs (started s) = Started (Await_raises e)"
  shows "fst (write_stream runs s) = Raises e \<and> spark_stopped (snd (write_stream runs s))"
proof (cases e)
  case (Exception m)
  with assms show ?thesis
    by (auto simp: write_stream_start_Exception write_stream_await_Exception)
next
  case (BaseException m)
  with assms show ?thesis
    by (auto simp: write_stream_start_BaseException write_stream_await_BaseException)
qed

lemma write_stream_one_run:
  "runs' (started s) = runs (started s) \<Longrightarrow> write_stream runs' s = write_stream runs s"
  by (simp add: block_defs)

text \<open>
  C6, as the job has it. In every execution the block starts the write exactly once: the
  job has no retry, no backoff and no cap of attempts. When starting the query or waiting
  for its termination raises, that same exception ends the block, after the Spark session
  has been stopped, so the first failure halts the pipeline. The failure is logged as an
  error when the exception is an instance of \<open>Exception\<close>; a KeyboardInterrupt or a
  SystemExit is raised on without an error record. How later runs would have gone makes
  no difference.
\<close>

theorem first_failure_is_fatal:
  "started (snd (write_stream runs s)) = Suc (started s) \<and>
   (runs (started s) = Start_raises e \<or> runs (started s) = Started (Await_raises e) \<longrightarrow>
      fst (write_stream runs s) = Raises e \<and> spark_stopped (snd (write_stream runs s))) \<and>
   (runs (started s) = Start_raises (Exception m) \<longrightarrow>
      log (snd (write_stream runs s)) = log s @ [''ERROR Streaming query failed: '' @ m]) \<and>
   (runs (started s) = Started (Await_raises (Exception m)) \<longrightarrow>
      log (snd (write_stream runs s)) =
        log s @ [''INFO Streaming query started'', ''INFO Checkpoint location'',
                 ''ERROR Streaming query failed: '' @ m]) \<and>
   (runs (started s) = Start_raises (BaseException m) \<longrightarrow>
      log (snd (write_stream runs s)) = log s) \<and>
   (runs (started s) = Started (Await_raises (BaseException m)) \<longrightarrow>
      log (snd (write_stream runs s)) =
        log s @ [''INFO Streaming query started'', ''INFO Checkpoint location'']) \<and>
   (runs' (started s) = runs (started s) \<longrightarrow> write_stream runs' s = write_stream runs s)"
proof (intro conjI impI)
  show "started (snd (write_stream runs s)) = Suc (started s)"
    by (rule write_stream_started)
next
  assume "runs (started s) = Start_raises e \<or> runs (started s) = Started (Await_raises e)"
  then have *: "fst (write_stream runs s) = Raises e \<and>
      spark_stopped (snd (write_stream runs s))"
    by (rule write_stream_failure)
  from * show "fst (write_stream runs s) = Raises e" ..
  from * show "spark_stopped (snd (write_stream runs s))" ..
next
  assume "runs (started s) = Start_raises (Exception m)"
  then show "log (snd (write_stream runs s)) =
      log s @ [''ERROR Streaming query failed: '' @ m]"
    by (simp add: write_stream_start_Exception)
next
  assume "runs (started s) = Started (Await_raises (Exception m))"
  then show "log (snd (write_stream runs s)) =
        log s @ [''INFO Streaming query started'', ''INFO Checkpoint location'',
                 ''ERROR Streaming query failed: '' @ m]"
    by (simp add: write_stream_await_Exception)
next
  assume "runs (started s) = Start_raises (BaseException m)"
  then show "log (snd (write_stream runs s)) = log s"
    by (simp add: write_stream_start_BaseException)
next
  assume "runs (started s) = Started (Await_raises (BaseException m))"
  then show "log (snd (write_stream runs s)) =
        log s @ [''INFO Streaming query started'', ''INFO Checkpoint location'']"
    by (simp add: write_stream_await_BaseException)
next
  assume "runs' (started s) = runs (started s)"
  then show "write_stream runs' s = write_stream runs s"
    by (rule write_stream_one_run)
qed

theorem first_failure_is_fatal_witness:
  "started (snd (write_stream fails_once block_start)) = 1 \<and>
   fst (write_stream fails_once block_start) = Raises (Exception ''storage unavailable'') \<and>
   spark_stopped (snd (write_stream fails_once block_start)) \<and>
   log (snd (write_stream fails_once block_start)) =
     [''INFO Streaming query started'', ''INFO Checkpoint location'',
      ''ERROR Streaming query failed: storage unavailable''] \<and>
   fst (write_stream interrupted block_start) = Raises (BaseException ''KeyboardInterrupt'') \<and>
   log (snd (write_stream interrupted block_start)) =
     [''INFO Streaming query started'', ''INFO Checkpoint location'']"
proof -
  have f: "fails_once (started block_start) =
      Started (Await_raises (Exception ''storage unavailable''))"
    by (simp add: fails_once_def block_start_def)
  have i: "interrupted (started block_start) =
      Started (Await_raises (BaseException ''KeyboardInterrupt''))"
    by (simp add: interrupted_def)
  have b: "started block_start = 0" "log block_start = []"
    by (simp_all add: block_start_def)
  from first_failure_is_fatal [of fails_once block_start
      "Exception ''storage unavailable''" "''storage unavailable''" fails_once] f
  have 1: "started (snd (write_stream fails_once block_start)) = Suc (started block_start)"
    "fst (write_stream fails_once block_start) = Raises (Exception ''storage unavailable'')"
    "spark_stopped (snd (write_stream fails_once block_start))"
    "log (snd (write_stream fails_once block_start)) =
       log block_start @ [''INFO Streaming query started'', ''INFO Checkpoint location'',
         ''ERROR Streaming query failed: '' @ ''storage unavailable'']"
    by simp_all
  from first_failure_is_fatal [of interrupted block_start
      "BaseException ''KeyboardInterrupt''" "''KeyboardInterrupt''" interrupted] i
  have 2: "fst (write_stream interrupted block_start) =
      Raises (BaseException ''KeyboardInterrupt'')"
    "log (snd (write_stream interrupted block_start)) =
       log block_start @ [''INFO Streaming query started'', ''INFO Checkpoint location'']"
    by simp_all
  from 1 2 b show ?thesis by simp
qed

text \<open>
  C6 as stated fails when the store is unavailable for the first run only: with a cap of
  two attempts, retrying would leave the query running, and the job ends with the
  exception of the first run, having started the write once.
\<close>

theorem transient_failure_is_not_retried:
  "fst (write_stream fails_once block_start) = Raises (Exception ''storage unavailable'') \<and>
   started (snd (write_stream fails_once block_start)) = 1 \<and>
   retry_up_to_cap 2 fails_once 0 = Blocks \<and>
   fst (write_stream fails_once block_start) \<noteq> retry_up_to_cap 2 fails_once 0"
proof -
  have "retry_up_to_cap (Suc (Suc 0)) fails_once 0 = Blocks"
    by (simp add: fails_once_def)
  then have r: "retry_up_to_cap 2 fails_once 0 = Blocks"
    by (simp add: numeral_2_eq_2)
  have "fails_once (started block_start) =
      Started (Await_raises (Exception ''storage unavailable''))"
    by (simp add: fails_once_def block_start_def)
  then have "write_stream fails_once block_start =
     (Raises (Exception ''storage unavailable''),
      block_start\<lparr>log := log block_start @
          [''INFO Streaming query started'', ''INFO Checkpoint location'',
           ''ERROR Streaming query failed: '' @ ''storage unavailable''],
        spark_stopped := True, started := Suc (started block_start)\<rparr>)"
    by (rule write_stream_await_Exception)
  then have "fst (write_stream fails_once block_start) =
      Raises (Exception ''storage unavailable'')"
    "started (snd (write_stream fails_once block_start)) = 1"
    by (simp_all add: block_start_def)
  with r show ?thesis by simp
qed

end
